theory Spec2Isabelle
  imports Main "HOL-Library.Word" "HOL-Library.Char_ord" "HOL-Library.List_Lexorder"
begin

section \<open>webby: sockets, request parsing\<close>

text \<open>
  A shallow embedding of \<^verbatim>\<open>include/net/socket.hpp\<close> and
  \<^verbatim>\<open>include/webby/request.hpp\<close>. Exceptions are values of the type \<open>error\<close>;
  a function that may throw returns \<open>error + 'a\<close>. Logging through the configuration's
  error log has no effect on any value modelled here and is left out.
\<close>

subsection \<open>Errors\<close>

text \<open>
  \<open>Socket_error msg n\<close> is \<^verbatim>\<open>net::socket_error\<close>: \<open>msg\<close> is the literal text streamed
  into the message and \<open>n\<close> the number streamed after it (\<^verbatim>\<open>errno\<close>, or the resolver's
  code), when there is one. \<open>Request_error\<close> is \<^verbatim>\<open>webby::request::error\<close>,
  \<open>Out_of_range\<close> is the \<^verbatim>\<open>std::out_of_range\<close> of \<^verbatim>\<open>std::map::at\<close>.
  \<open>Undefined_behaviour\<close> marks the places where the C++ program has no defined result.
\<close>

datatype error =
    Socket_error string "int option"
  | Request_error string
  | Out_of_range
  | Undefined_behaviour string

subsection \<open>The kernel's descriptor table\<close>

text \<open>
  The part of the operating system the socket classes talk to: the descriptors that are
  open in the process, the limit on descriptor numbers, and a log of every call of
  \<^verbatim>\<open>close(2)\<close> (the argument of each call, in order).
\<close>

record kernel =
  open_fds :: "int list"
  fd_limit :: nat
  close_calls :: "int list"

definition EBADF :: int where
  "EBADF = 9"

definition EMFILE :: int where
  "EMFILE = 24"

text \<open>\<^verbatim>\<open>close(fd)\<close>: result, \<^verbatim>\<open>errno\<close> and the new kernel state.\<close>

definition sys_close :: "kernel \<Rightarrow> int \<Rightarrow> int \<times> int \<times> kernel" where
  "sys_close k fd =
     (if fd \<in> set (open_fds k)
      then (0, 0, k\<lparr>open_fds := removeAll fd (open_fds k), close_calls := close_calls k @ [fd]\<rparr>)
      else (- 1, EBADF, k\<lparr>close_calls := close_calls k @ [fd]\<rparr>))"

text \<open>\<^verbatim>\<open>socket(family, type, protocol)\<close>: the lowest free descriptor, or \<open>-1\<close> when the
  table is full.\<close>

definition sys_socket :: "kernel \<Rightarrow> int \<times> int \<times> kernel" where
  "sys_socket k =
     (case find (\<lambda>i. int i \<notin> set (open_fds k)) [0..<fd_limit k] of
        Some i \<Rightarrow> (int i, 0, k\<lparr>open_fds := int i # open_fds k\<rparr>)
      | None \<Rightarrow> (- 1, EMFILE, k))"

subsection \<open>\<^verbatim>\<open>std::shared_ptr<int>\<close>\<close>

text \<open>
  A shared pointer is the address of its control block, \<open>0\<close> for the empty pointer. The
  control block holds the use count and the owned \<^verbatim>\<open>int\<close>. \<open>brk\<close> is the last address
  handed out by the allocator.
\<close>

record cell =
  use_count :: nat
  pointee :: int

record machine =
  kern :: kernel
  heap :: "nat \<Rightarrow> cell option"
  brk :: nat

definition make_shared :: "machine \<Rightarrow> int \<Rightarrow> nat \<times> machine" where
  "make_shared m v =
     (let a = Suc (brk m)
      in (a, m\<lparr>heap := (heap m)(a \<mapsto> \<lparr>use_count = 1, pointee = v\<rparr>), brk := a\<rparr>))"

text \<open>Copy construction of a shared pointer: one more owner of the same block.\<close>

definition sp_copy :: "machine \<Rightarrow> nat \<Rightarrow> nat \<times> machine" where
  "sp_copy m p =
     (case heap m p of
        None \<Rightarrow> (p, m)
      | Some c \<Rightarrow> (p, m\<lparr>heap := (heap m)(p \<mapsto> c\<lparr>use_count := Suc (use_count c)\<rparr>)\<rparr>))"

text \<open>Destruction of a shared pointer: one owner less; the last owner frees the block.\<close>

definition sp_release :: "machine \<Rightarrow> nat \<Rightarrow> machine" where
  "sp_release m p =
     (case heap m p of
        None \<Rightarrow> m
      | Some c \<Rightarrow>
          if use_count c \<le> 1 then m\<lparr>heap := (heap m)(p := None)\<rparr>
          else m\<lparr>heap := (heap m)(p \<mapsto> c\<lparr>use_count := use_count c - 1\<rparr>)\<rparr>)"

subsection \<open>\<^verbatim>\<open>net::socket\<close>: construction, copy, destruction\<close>

text \<open>The member \<^verbatim>\<open>_fd\<close> is the field \<open>fd_ptr\<close>.\<close>

record socket =
  fd_ptr :: nat

text \<open>\<^verbatim>\<open>socket()\<close>\<close>

definition socket_default :: socket where
  "socket_default = \<lparr>fd_ptr = 0\<rparr>"

text \<open>\<^verbatim>\<open>socket(int fd) : _fd(std::make_shared<int>(fd))\<close>\<close>

definition socket_from_fd :: "machine \<Rightarrow> int \<Rightarrow> socket \<times> machine" where
  "socket_from_fd m fd = (let (a, m') = make_shared m fd in (\<lparr>fd_ptr = a\<rparr>, m'))"

text \<open>\<^verbatim>\<open>socket(const socket& s) : _fd(s._fd)\<close>\<close>

definition socket_copy :: "machine \<Rightarrow> socket \<Rightarrow> socket \<times> machine" where
  "socket_copy m s = (let (a, m') = sp_copy m (fd_ptr s) in (\<lparr>fd_ptr = a\<rparr>, m'))"

text \<open>
  How the run of a destructor ends. \<open>Returned\<close>: it returns. \<open>Terminated e\<close>: the body
  throws \<open>e\<close>; no destructor of \<^verbatim>\<open>socket.hpp\<close> carries an exception specification and
  the build sets \<^verbatim>\<open>-std=c++11\<close>, under which such a destructor is \<^verbatim>\<open>noexcept\<close>, so the
  exception does not leave it: \<^verbatim>\<open>std::terminate\<close> is called and the process ends.
  \<open>Undefined\<close>: the run has no defined behaviour.
\<close>

datatype dtor_result = Returned | Terminated error | Undefined string

text \<open>
  \<^verbatim>\<open>~socket()\<close>: the body closes \<^verbatim>\<open>*_fd\<close> whenever \<^verbatim>\<open>_fd\<close> is not empty and throws when
  \<^verbatim>\<open>close\<close> returns a negative result. When the body returns, the member \<^verbatim>\<open>_fd\<close> is
  destroyed after it. When the body throws, the process ends at the throw: the machine
  is the one \<^verbatim>\<open>close\<close> has left and the member is not destroyed.
\<close>

definition socket_dtor :: "machine \<Rightarrow> 'a socket_scheme \<Rightarrow> dtor_result \<times> machine" where
  "socket_dtor m s =
     (if fd_ptr s \<noteq> 0 then
        (case heap m (fd_ptr s) of
           None \<Rightarrow> (Undefined ''dangling _fd'', m)
         | Some c \<Rightarrow>
             (let (r, eno, k') = sys_close (kern m) (pointee c)
              in if r < 0
                 then (Terminated (Socket_error ''Error closing socket: '' (Some eno)),
                       m\<lparr>kern := k'\<rparr>)
                 else (Returned, sp_release (m\<lparr>kern := k'\<rparr>) (fd_ptr s))))
      else (Returned, m))"

subsection \<open>\<^verbatim>\<open>net::socket_impl::create\<close>\<close>

record addrinfo =
  ai_family :: int
  ai_socktype :: int
  ai_protocol :: int

record socket_impl = socket +
  res0 :: "addrinfo option"

definition socket_impl_default :: socket_impl where
  "socket_impl_default = \<lparr>fd_ptr = 0, res0 = None\<rparr>"

text \<open>
  \<^verbatim>\<open>~socket_impl()\<close>: frees the address list, which is no part of the machine, and calls
  \<^verbatim>\<open>socket::~socket()\<close> by name. When that call returns, the base destructor runs once
  more at the end, on a base whose lifetime the call has ended: that run has no defined
  behaviour.
\<close>

definition socket_impl_dtor :: "machine \<Rightarrow> socket_impl \<Rightarrow> dtor_result \<times> machine" where
  "socket_impl_dtor m s =
     (case socket_dtor m s of
        (Returned, m1) \<Rightarrow> (Undefined ''~socket() runs again on the destroyed base'', m1)
      | (r, m1) \<Rightarrow> (r, m1))"

text \<open>
  The resolver is a parameter: \<open>getaddrinfo name port\<close> gives the error code (\<open>0\<close> for
  success) and the first result. The test after the descriptor is created is
  \<^verbatim>\<open>if(_fd < 0)\<close>: it compares the shared pointer itself, an address, with the null
  pointer, not the descriptor \<^verbatim>\<open>*_fd\<close>.
\<close>

definition create ::
  "(string \<Rightarrow> 16 word \<Rightarrow> int \<times> addrinfo) \<Rightarrow> machine \<Rightarrow> socket_impl \<Rightarrow> string \<Rightarrow> 16 word
    \<Rightarrow> (error + socket_impl) \<times> machine" where
  "create getaddrinfo m s name port =
     (if fd_ptr s \<noteq> 0 then (Inl (Socket_error ''Socket already exists.'' None), m)
      else
        (let (err, ai) = getaddrinfo name port
         in if err \<noteq> 0 then (Inl (Socket_error ''Could not resolve address: '' (Some err)), m)
            else
              (let (fd, eno, k') = sys_socket (kern m);
                   (a, m') = make_shared (m\<lparr>kern := k'\<rparr>) fd;
                   s' = s\<lparr>fd_ptr := a, res0 := Some ai\<rparr>
               in if a < 0 then (Inl (Socket_error ''Could not create socket: '' (Some eno)), m')
                  else (Inr s', m'))))"

subsection \<open>\<^verbatim>\<open>net::server::create\<close>\<close>

text \<open>
  \<^verbatim>\<open>setsockopt\<close>, \<^verbatim>\<open>bind\<close> and \<^verbatim>\<open>listen\<close>, each giving its result and \<^verbatim>\<open>errno\<close>: they
  fail on a descriptor that is not open. What else can make them fail on an open
  descriptor (an address in use, say) is not part of this kernel.
\<close>

definition sys_setsockopt :: "kernel \<Rightarrow> int \<Rightarrow> int \<times> int" where
  "sys_setsockopt k fd = (if fd \<in> set (open_fds k) then (0, 0) else (- 1, EBADF))"

definition sys_bind :: "kernel \<Rightarrow> int \<Rightarrow> int \<times> int" where
  "sys_bind k fd = (if fd \<in> set (open_fds k) then (0, 0) else (- 1, EBADF))"

definition sys_listen :: "kernel \<Rightarrow> int \<Rightarrow> int \<Rightarrow> int \<times> int" where
  "sys_listen k fd backlog = (if fd \<in> set (open_fds k) then (0, 0) else (- 1, EBADF))"

text \<open>\<^verbatim>\<open>server::create\<close>: \<^verbatim>\<open>socket_impl::create\<close>, then the three calls on \<^verbatim>\<open>*_fd\<close>.\<close>

definition server_create ::
  "(string \<Rightarrow> 16 word \<Rightarrow> int \<times> addrinfo) \<Rightarrow> machine \<Rightarrow> socket_impl \<Rightarrow> string \<Rightarrow> 16 word
    \<Rightarrow> (error + socket_impl) \<times> machine" where
  "server_create getaddrinfo m s name port =
     (case create getaddrinfo m s name port of
        (Inl e, m') \<Rightarrow> (Inl e, m')
      | (Inr s', m') \<Rightarrow>
          (case heap m' (fd_ptr s') of
             None \<Rightarrow> (Inl (Undefined_behaviour ''empty _fd dereferenced''), m')
           | Some c \<Rightarrow>
               if fst (sys_setsockopt (kern m') (pointee c)) < 0
               then (Inl (Socket_error ''Could not configure socket: ''
                            (Some (snd (sys_setsockopt (kern m') (pointee c))))), m')
               else if fst (sys_bind (kern m') (pointee c)) < 0
               then (Inl (Socket_error ''Could not bind to socket: ''
                            (Some (snd (sys_bind (kern m') (pointee c))))), m')
               else if fst (sys_listen (kern m') (pointee c) 10000) < 0
               then (Inl (Socket_error ''Could not listen for incoming connections: ''
                            (Some (snd (sys_listen (kern m') (pointee c) 10000)))), m')
               else (Inr s', m')))"

subsection \<open>The receive side of a connected descriptor\<close>

text \<open>
  \<open>rxq\<close> holds the bytes pending in the kernel's receive queue of the connection, in
  arrival order; an empty queue stands for a peer that has closed in an orderly way
  (\<^verbatim>\<open>recv\<close> returns \<open>0\<close>). \<open>rx_errno = Some e\<close> is a connection on which \<^verbatim>\<open>recv\<close>
  fails with \<^verbatim>\<open>errno\<close> \<open>e\<close>.
\<close>

record channel =
  rxq :: string
  rx_errno :: "int option"

text \<open>\<^verbatim>\<open>recv(fd, buffer, len, peek ? MSG_PEEK : 0)\<close>: result, the bytes written to the
  buffer, the new queue.\<close>

definition sys_recv :: "channel \<Rightarrow> nat \<Rightarrow> bool \<Rightarrow> int \<times> string \<times> channel" where
  "sys_recv c len peek =
     (case rx_errno c of
        Some e \<Rightarrow> (- 1, [], c)
      | None \<Rightarrow>
          (let d = take len (rxq c)
           in (int (length d), d, if peek then c else c\<lparr>rxq := drop len (rxq c)\<rparr>)))"

text \<open>\<^verbatim>\<open>socket::read_block\<close>; the result is converted to \<^verbatim>\<open>unsigned\<close>.\<close>

definition read_block :: "channel \<Rightarrow> nat \<Rightarrow> bool \<Rightarrow> error + (nat \<times> string \<times> channel)" where
  "read_block c len peek =
     (let (read_length, buffer, c') = sys_recv c len peek
      in if read_length < 0
         then Inl (Socket_error ''Error reading from connected host: '' (rx_errno c))
         else Inr (nat read_length mod 2 ^ 32, buffer, c'))"

definition CR :: char where
  "CR = CHR 0x0D"

definition LF :: char where
  "LF = CHR 0x0A"

definition CRLF :: string where
  "CRLF = [CR, LF]"

definition BUFFER_SIZE :: nat where
  "BUFFER_SIZE = 4096"

text \<open>
  The loop of \<^verbatim>\<open>read_line\<close> over the bytes peeked: \<open>p\<close> is the offset \<^verbatim>\<open>p - buffer\<close>,
  the list the bytes from \<open>p\<close> to \<^verbatim>\<open>read_length\<close>. Every carriage return and every line
  feed counts, whether or not they are adjacent.
\<close>

fun scan_eol :: "string \<Rightarrow> nat \<Rightarrow> nat \<Rightarrow> nat \<times> nat" where
  "scan_eol [] p found_eol = (p, found_eol)"
| "scan_eol (ch # rest) p found_eol =
     (if found_eol < 2
      then scan_eol rest (Suc p) (if ch = CR \<or> ch = LF then Suc found_eol else found_eol)
      else (p, found_eol))"

text \<open>
  \<^verbatim>\<open>socket::read_line\<close>. The second \<^verbatim>\<open>read_block\<close> consumes \<open>p\<close> bytes; the string built
  from the buffer has \<^verbatim>\<open>read_length - 2\<close> bytes, an unsigned subtraction that wraps when
  fewer than two bytes were read.
\<close>

definition read_line :: "channel \<Rightarrow> error + (string \<times> channel)" where
  "read_line c =
     (case read_block c BUFFER_SIZE True of
        Inl e \<Rightarrow> Inl e
      | Inr (read_length, buffer, c1) \<Rightarrow>
          if read_length > 0 then
            (let (p, found_eol) = scan_eol buffer 0 0
             in if found_eol < 2 then Inl (Socket_error ''Line not found'' None)
                else
                  (case read_block c1 p False of
                     Inl e \<Rightarrow> Inl e
                   | Inr (read_length2, buffer2, c2) \<Rightarrow>
                       if read_length2 < 2
                       then Inl (Undefined_behaviour ''string length read_length - 2 wraps'')
                       else Inr (take (read_length2 - 2) buffer2, c2)))
          else Inr ([], c1))"

subsection \<open>Helpers of \<^verbatim>\<open>webby/utility.hpp\<close> and \<^verbatim>\<open>webby/method.hpp\<close>\<close>

text \<open>
  Modelled from the spec: \<^verbatim>\<open>webby/utility.hpp\<close> is not among the sources. \<open>lowercase\<close>
  maps the letters A to Z to a to z and leaves every other byte as it is: its result is
  compared with the lower-case method names, and the spec asks for header names that
  are case-insensitive.
\<close>

definition tolower :: "char \<Rightarrow> char" where
  "tolower c =
     (case map_of (zip ''ABCDEFGHIJKLMNOPQRSTUVWXYZ'' ''abcdefghijklmnopqrstuvwxyz'') c of
        Some d \<Rightarrow> d
      | None \<Rightarrow> c)"

text \<open>Modelled from the spec: \<^verbatim>\<open>lowercase\<close> of \<^verbatim>\<open>webby/utility.hpp\<close>, not among the
  sources, applies \<open>tolower\<close> to every byte.\<close>

definition lowercase :: "string \<Rightarrow> string" where
  "lowercase s = map tolower s"

text \<open>
  Modelled from the spec: \<^verbatim>\<open>no_case_compare\<close> of \<^verbatim>\<open>webby/utility.hpp\<close>, the ordering of
  the header map, is not among the sources. The spec says that keys are compared
  case-insensitively: the ordering is the lexicographic one on the lower-cased keys.
\<close>

definition no_case_compare :: "string \<Rightarrow> string \<Rightarrow> bool" where
  "no_case_compare a b = (lowercase a < lowercase b)"

text \<open>
  Modelled from the spec: \<^verbatim>\<open>webby/method.hpp\<close> is not among the sources. The spec's data
  model gives the method as enumerated: the eight methods, or unrecognized.
\<close>

datatype http_method = CONNECT | DELETE | GET | HEAD | OPTIONS | POST | PUT | TRACE | UNRECOGNIZED

subsection \<open>\<^verbatim>\<open>std::map<std::string, std::string, no_case_compare>\<close>\<close>

text \<open>
  The map is a list of entries whose keys are pairwise inequivalent. Two keys are
  equivalent, as in every ordered container, when neither is ordered before the other.
  An entry keeps the spelling of the key it was inserted with.
\<close>

type_synonym header_map = "(string \<times> string) list"

definition key_equiv :: "string \<Rightarrow> string \<Rightarrow> bool" where
  "key_equiv a b = (\<not> no_case_compare a b \<and> \<not> no_case_compare b a)"

fun map_find :: "header_map \<Rightarrow> string \<Rightarrow> string option" where
  "map_find [] k = None"
| "map_find ((k', v) # h) k = (if key_equiv k' k then Some v else map_find h k)"

text \<open>\<^verbatim>\<open>m[k] = v\<close>\<close>

fun map_assign :: "header_map \<Rightarrow> string \<Rightarrow> string \<Rightarrow> header_map" where
  "map_assign [] k v = [(k, v)]"
| "map_assign ((k', v') # h) k v =
     (if key_equiv k' k then (k', v) # h else (k', v') # map_assign h k v)"

text \<open>\<^verbatim>\<open>m[k]\<close> read: a missing key is inserted with an empty value.\<close>

definition map_subscript :: "header_map \<Rightarrow> string \<Rightarrow> string \<times> header_map" where
  "map_subscript h k =
     (case map_find h k of Some v \<Rightarrow> (v, h) | None \<Rightarrow> ([], map_assign h k []))"

text \<open>\<^verbatim>\<open>m.count(k)\<close>\<close>

definition map_count :: "header_map \<Rightarrow> string \<Rightarrow> nat" where
  "map_count h k = length (filter (\<lambda>e. key_equiv (fst e) k) h)"

subsection \<open>\<^verbatim>\<open>webby::request\<close>\<close>

text \<open>
  The members \<^verbatim>\<open>_method\<close>, \<^verbatim>\<open>_path\<close>, \<^verbatim>\<open>_route\<close> and \<^verbatim>\<open>_header\<close>. \<open>req_method\<close> is
  \<open>None\<close> as long as no statement has assigned \<^verbatim>\<open>_method\<close>: the value it holds then is
  whatever its storage held.
\<close>

record request =
  req_method :: "http_method option"
  req_path :: string
  req_route :: string
  req_header :: header_map

text \<open>
  The members before the constructor's body runs: no initialiser names any of them. The
  strings and the map are empty; \<^verbatim>\<open>_method\<close> is left uninitialised.
\<close>

definition request_init :: request where
  "request_init = \<lparr>req_method = None, req_path = [], req_route = [], req_header = []\<rparr>"

text \<open>\<^verbatim>\<open>request::header\<close> is \<^verbatim>\<open>_header.at(name)\<close>, \<^verbatim>\<open>request::has_header\<close> is
  \<^verbatim>\<open>_header.count(name) == 1\<close>.\<close>

definition header :: "request \<Rightarrow> string \<Rightarrow> error + string" where
  "header r name = (case map_find (req_header r) name of Some v \<Rightarrow> Inr v | None \<Rightarrow> Inl Out_of_range)"

definition has_header :: "request \<Rightarrow> string \<Rightarrow> bool" where
  "has_header r name = (map_count (req_header r) name = 1)"

text \<open>
  The chain of comparisons on the lower-cased method token. It has no final \<^verbatim>\<open>else\<close>:
  a token that matches no name leaves \<^verbatim>\<open>_method\<close> as it was.
\<close>

definition set_method :: "request \<Rightarrow> string \<Rightarrow> request" where
  "set_method r m =
     (if m = ''connect'' then r\<lparr>req_method := Some CONNECT\<rparr>
      else if m = ''delete'' then r\<lparr>req_method := Some DELETE\<rparr>
      else if m = ''get'' then r\<lparr>req_method := Some GET\<rparr>
      else if m = ''head'' then r\<lparr>req_method := Some HEAD\<rparr>
      else if m = ''options'' then r\<lparr>req_method := Some OPTIONS\<rparr>
      else if m = ''post'' then r\<lparr>req_method := Some POST\<rparr>
      else if m = ''put'' then r\<lparr>req_method := Some PUT\<rparr>
      else if m = ''trace'' then r\<lparr>req_method := Some TRACE\<rparr>
      else r)"

text \<open>
  The body of \<^verbatim>\<open>process_request_line\<close> after the line is read. An iterator is the
  rest of the line from its position: \<open>dropWhile\<close> is a loop that advances an iterator,
  \<open>takeWhile\<close> the string between the two iterators.
\<close>

definition parse_request_line :: "request \<Rightarrow> string \<Rightarrow> error + request" where
  "parse_request_line r request_line =
     (let last1 = dropWhile (\<lambda>c. c \<noteq> CHR '' '') request_line
      in if last1 = [] then Inl (Request_error (''Invalid request line: '' @ request_line))
         else
           (let m = lowercase (takeWhile (\<lambda>c. c \<noteq> CHR '' '') request_line);
                r1 = set_method r m;
                first = dropWhile (\<lambda>c. c \<noteq> CHR ''/'') last1
            in if first = [] then Inl (Request_error (''Invalid request line: '' @ request_line))
               else
                 (let last2 = dropWhile (\<lambda>c. c \<noteq> CHR '' '') first
                  in if last2 = []
                     then Inl (Request_error (''Invalid request line: '' @ request_line))
                     else Inr (r1\<lparr>req_path := takeWhile (\<lambda>c. c \<noteq> CHR '' '') first\<rparr>))))"

definition process_request_line :: "request \<Rightarrow> channel \<Rightarrow> error + (request \<times> channel)" where
  "process_request_line r c =
     (case read_line c of
        Inl e \<Rightarrow> Inl e
      | Inr (request_line, c') \<Rightarrow>
          (case parse_request_line r request_line of
             Inl e \<Rightarrow> Inl e
           | Inr r' \<Rightarrow> Inr (r', c')))"

text \<open>
  One turn of the loop of \<^verbatim>\<open>process_header_lines\<close> on a line that is not empty; the
  state is the local \<^verbatim>\<open>name\<close> and the map. The test for a continuation dereferences
  \<^verbatim>\<open>_header[name].crend()\<close>, the position before the first character of the stored
  value: the byte found there is no part of the string, and C++ does not say what it is.
  It is the parameter \<open>oob\<close>, a function of the stored value.
\<close>

definition header_line_step ::
  "(string \<Rightarrow> char) \<Rightarrow> string \<times> header_map \<Rightarrow> string \<Rightarrow> string \<times> header_map" where
  "header_line_step oob st line =
     (let name = fst st;
          h = snd st;
          header_line = dropWhile (\<lambda>c. c = CHR '' '') line;
          h1 = (if length name > 0 then snd (map_subscript h name) else h)
      in if length name > 0 \<and> oob (fst (map_subscript h name)) = CHR '',''
         then (name, map_assign h1 name (fst (map_subscript h1 name) @ '' '' @ header_line))
         else
           (case dropWhile (\<lambda>c. c \<noteq> CHR '':'') header_line of
              [] \<Rightarrow> (name, h1)
            | colon # after \<Rightarrow>
                (let name' = takeWhile (\<lambda>c. c \<noteq> CHR '':'') header_line
                 in (name', map_assign h1 name' (dropWhile (\<lambda>c. c = CHR '' '') after)))))"

text \<open>The loop: \<open>header_line\<close> is the line read last, the channel is where the next one
  comes from.\<close>

function process_header_loop ::
  "(string \<Rightarrow> char) \<Rightarrow> channel \<Rightarrow> string \<Rightarrow> string \<times> header_map
    \<Rightarrow> error + (header_map \<times> channel)" where
  "process_header_loop oob c header_line st =
     (if length header_line > 0 then
        (case read_line c of
           Inl e \<Rightarrow> Inl e
         | Inr (l, c') \<Rightarrow> process_header_loop oob c' l (header_line_step oob st header_line))
      else Inr (snd st, c))"
  by pat_completeness auto
termination
proof (relation "measure (\<lambda>(oob, c, header_line, st).
                   2 * length (rxq c) + (if header_line = [] then 0 else 1))")
  show "wf (measure (\<lambda>(oob, c, header_line, st).
                   2 * length (rxq c) + (if header_line = [] then 0 else 1)))"
    by simp
next
  fix oob :: "string \<Rightarrow> char" and c :: channel and header_line :: string
    and st :: "string \<times> header_map" and x :: "string \<times> channel" and l :: string and c' :: channel
  assume nonempty: "0 < length header_line"
    and rd: "read_line c = Inr x"
    and x: "(l, c') = x"
  from rd x have rl: "read_line c = Inr (l, c')"
    by simp
  have le: "length (rxq c') \<le> length (rxq c)"
    using rl
    by (auto simp: read_line_def read_block_def sys_recv_def Let_def
          split: sum.splits option.splits if_splits prod.splits)
  have lt: "l \<noteq> [] \<Longrightarrow> length (rxq c') < length (rxq c)"
    using rl
    by (auto simp: read_line_def read_block_def sys_recv_def Let_def
          split: sum.splits option.splits if_splits prod.splits)
  show "((oob, c', l, header_line_step oob st header_line), (oob, c, header_line, st))
        \<in> measure (\<lambda>(oob, c, header_line, st).
                   2 * length (rxq c) + (if header_line = [] then 0 else 1))"
    using nonempty le lt by (cases "l = []") auto
qed

declare process_header_loop.simps [simp del]

text \<open>\<^verbatim>\<open>process_header_lines\<close>: the first line is read before the loop.\<close>

definition process_header_lines ::
  "(string \<Rightarrow> char) \<Rightarrow> request \<Rightarrow> channel \<Rightarrow> error + (request \<times> channel)" where
  "process_header_lines oob r c =
     (case read_line c of
        Inl e \<Rightarrow> Inl e
      | Inr (header_line, c') \<Rightarrow>
          (case process_header_loop oob c' header_line ([], req_header r) of
             Inl e \<Rightarrow> Inl e
           | Inr (h, c'') \<Rightarrow> Inr (r\<lparr>req_header := h\<rparr>, c'')))"

text \<open>The constructor \<^verbatim>\<open>request(config, worker)\<close>.\<close>

definition request_ctor :: "(string \<Rightarrow> char) \<Rightarrow> channel \<Rightarrow> error + (request \<times> channel)" where
  "request_ctor oob c =
     (case process_request_line request_init c of
        Inl e \<Rightarrow> Inl e
      | Inr (r, c') \<Rightarrow> process_header_lines oob r c')"

subsection \<open>Client scenarios\<close>

text \<open>A process at start: the given descriptors open, nothing allocated.\<close>

definition boot :: "int list \<Rightarrow> nat \<Rightarrow> machine" where
  "boot fds lim =
     \<lparr>kern = \<lparr>open_fds = fds, fd_limit = lim, close_calls = []\<rparr>, heap = (\<lambda>a. None), brk = 0\<rparr>"

text \<open>
  The block \<^verbatim>\<open>{ net::socket s(fd); { net::socket t(s); } }\<close>: a socket, a copy of it, the
  copy destroyed, then the original. The result is the outcome of each destructor with
  the machine it leaves; the second destructor runs only when the first has returned.
\<close>

definition copy_then_destroy ::
  "machine \<Rightarrow> int \<Rightarrow> (dtor_result \<times> machine) \<times> (dtor_result \<times> machine)" where
  "copy_then_destroy m fd =
     (let (s, m1) = socket_from_fd m fd;
          (t, m2) = socket_copy m1 s;
          (r1, m3) = socket_dtor m2 t;
          (r2, m4) = (if r1 = Returned then socket_dtor m3 s else (r1, m3))
      in ((r1, m3), (r2, m4)))"

text \<open>A resolver that succeeds on every name: an IPv4 TCP stream address.\<close>

definition resolve_ok :: "string \<Rightarrow> 16 word \<Rightarrow> int \<times> addrinfo" where
  "resolve_ok name port = (0, \<lparr>ai_family = 2, ai_socktype = 1, ai_protocol = 6\<rparr>)"

subsection \<open>Header blocks on the wire\<close>

text \<open>The bytes of a block of lines: each line followed by CR LF.\<close>

definition encode_lines :: "string list \<Rightarrow> string" where
  "encode_lines ls = concat (map (\<lambda>l. l @ CRLF) ls)"

text \<open>A line that is not blank, holds no carriage return and no line feed, and fits in
  the buffer of \<^verbatim>\<open>read_line\<close> together with its terminator.\<close>

definition readable_line :: "string \<Rightarrow> bool" where
  "readable_line l = (l \<noteq> [] \<and> CR \<notin> set l \<and> LF \<notin> set l \<and> length l + 2 \<le> BUFFER_SIZE)"

text \<open>The test of \<^verbatim>\<open>process_header_lines\<close> for a continuation, on the state of the loop.\<close>

definition is_continuation :: "(string \<Rightarrow> char) \<Rightarrow> string \<times> header_map \<Rightarrow> bool" where
  "is_continuation oob st =
     (length (fst st) > 0 \<and> oob (fst (map_subscript (snd st) (fst st))) = CHR '','')"

text \<open>The local \<^verbatim>\<open>name\<close> is empty or a key of the map.\<close>

definition name_stored :: "string \<times> header_map \<Rightarrow> bool" where
  "name_stored st = (fst st = [] \<or> map_find (snd st) (fst st) \<noteq> None)"

text \<open>The keys of the map are pairwise inequivalent.\<close>

definition distinct_keys :: "header_map \<Rightarrow> bool" where
  "distinct_keys h = distinct (map (\<lambda>e. lowercase (fst e)) h)"

text \<open>
  A memory in which the byte before the characters of every string is zero, as it is
  where the string's length field, stored before its characters, has a zero top byte.
\<close>

definition zero_byte :: "string \<Rightarrow> char" where
  "zero_byte v = CHR 0x00"

section \<open>Properties\<close>

subsection \<open>Ownership of the descriptor\<close>

lemmas own_defs = boot_def copy_then_destroy_def socket_from_fd_def socket_copy_def
  socket_dtor_def make_shared_def sp_copy_def sp_release_def sys_close_def EBADF_def Let_def

text \<open>
  The destructor closes the descriptor of every handle that is not empty; the use count
  of the shared pointer plays no part in it.
\<close>

lemma socket_dtor_closes_whatever_the_count:
  "fd_ptr s \<noteq> 0 \<Longrightarrow> heap m (fd_ptr s) = Some c \<Longrightarrow>
   close_calls (kern (snd (socket_dtor m s))) = close_calls (kern m) @ [pointee c]"
  by (simp add: socket_dtor_def sys_close_def sp_release_def Let_def)

text \<open>
  The destructor of \<^verbatim>\<open>socket_impl\<close> whose call of \<^verbatim>\<open>~socket()\<close> returns goes on to run
  the base destructor a second time.
\<close>

lemma socket_impl_dtor_runs_twice:
  "socket_dtor m s = (Returned, m1) \<Longrightarrow>
   socket_impl_dtor m s = (Undefined ''~socket() runs again on the destroyed base'', m1)"
  by (simp add: socket_impl_dtor_def)

text \<open>
  C1. The claim: a descriptor shared by a socket and its copies is closed exactly once,
  when the last owner is destroyed. The code at a socket on descriptor 5 and one copy:
  destroying the copy returns normally and closes descriptor 5 while the original still
  owns it (use count 1); destroying the original calls \<^verbatim>\<open>close(5)\<close> a second time, which
  fails with \<^verbatim>\<open>EBADF\<close>, and the destructor throws, which ends the process. \<^verbatim>\<open>close\<close> has
  been called twice.
\<close>

theorem socket_copy_closes_twice:
  "fst (fst (copy_then_destroy (boot [5] 1024) 5)) = Returned
   \<and> open_fds (kern (snd (fst (copy_then_destroy (boot [5] 1024) 5)))) = []
   \<and> heap (snd (fst (copy_then_destroy (boot [5] 1024) 5))) 1
       = Some \<lparr>use_count = 1, pointee = 5\<rparr>
   \<and> fst (snd (copy_then_destroy (boot [5] 1024) 5))
       = Terminated (Socket_error ''Error closing socket: '' (Some EBADF))
   \<and> close_calls (kern (snd (snd (copy_then_destroy (boot [5] 1024) 5)))) = [5, 5]"
  by (simp add: own_defs)

text \<open>
  C2. The claim: when closing the descriptor fails, the destructor does not throw and the
  process is not aborted. The code at a socket built on descriptor 7, which is not open:
  \<^verbatim>\<open>close(7)\<close> fails, the destructor throws \<^verbatim>\<open>socket_error\<close>, and the process ends in
  \<^verbatim>\<open>std::terminate\<close>.
\<close>

theorem socket_dtor_close_failure_counterexample:
  "fst (sys_close (kern (snd (socket_from_fd (boot [] 1024) 7))) 7) < 0
   \<and> fst (socket_dtor (snd (socket_from_fd (boot [] 1024) 7))
                       (fst (socket_from_fd (boot [] 1024) 7)))
       = Terminated (Socket_error ''Error closing socket: '' (Some EBADF))"
  by (simp add: own_defs)

text \<open>
  C2, amended. For every socket that holds a descriptor, and every endpoint built on
  \<^verbatim>\<open>socket_impl\<close> that holds it, when \<^verbatim>\<open>close\<close> fails the destructor throws
  \<^verbatim>\<open>socket_error\<close> with the text "Error closing socket: " and the \<^verbatim>\<open>errno\<close> of the call;
  the exception does not leave the destructor: the process ends in \<^verbatim>\<open>std::terminate\<close>,
  in the state the failed \<^verbatim>\<open>close\<close> has left, with the descriptor box as it was.
\<close>

theorem socket_dtor_terminates_when_close_fails:
  assumes "fd_ptr s \<noteq> 0" and "heap m (fd_ptr s) = Some c"
    and "fst (sys_close (kern m) (pointee c)) < 0"
    and "fd_ptr si = fd_ptr s"
  shows "socket_dtor m s
           = (Terminated (Socket_error ''Error closing socket: ''
                            (Some (fst (snd (sys_close (kern m) (pointee c)))))),
              m\<lparr>kern := snd (snd (sys_close (kern m) (pointee c)))\<rparr>)
         \<and> socket_impl_dtor m si
           = (Terminated (Socket_error ''Error closing socket: ''
                            (Some (fst (snd (sys_close (kern m) (pointee c)))))),
              m\<lparr>kern := snd (snd (sys_close (kern m) (pointee c)))\<rparr>)
         \<and> heap (snd (socket_dtor m s)) = heap m"
proof (cases "sys_close (kern m) (pointee c)")
  case (fields r eno k')
  with assms(3) have neg: "r < 0"
    by simp
  have a: "socket_dtor m s
           = (Terminated (Socket_error ''Error closing socket: '' (Some eno)), m\<lparr>kern := k'\<rparr>)"
    using assms(1,2) fields neg by (simp add: socket_dtor_def)
  have b: "socket_dtor m si
           = (Terminated (Socket_error ''Error closing socket: '' (Some eno)), m\<lparr>kern := k'\<rparr>)"
    using assms(1,2,4) fields neg by (simp add: socket_dtor_def)
  show ?thesis
    by (simp add: a b socket_impl_dtor_def fields)
qed

theorem socket_dtor_terminates_when_close_fails_witness:
  "fd_ptr (fst (socket_from_fd (boot [] 1024) 7)) \<noteq> 0
   \<and> heap (snd (socket_from_fd (boot [] 1024) 7)) (fd_ptr (fst (socket_from_fd (boot [] 1024) 7)))
       = Some \<lparr>use_count = 1, pointee = 7\<rparr>
   \<and> fst (sys_close (kern (snd (socket_from_fd (boot [] 1024) 7))) 7) < 0
   \<and> fd_ptr (socket_impl_default\<lparr>fd_ptr := 1\<rparr>) = fd_ptr (fst (socket_from_fd (boot [] 1024) 7))
   \<and> fst (socket_dtor (snd (socket_from_fd (boot [] 1024) 7))
                       (fst (socket_from_fd (boot [] 1024) 7)))
       = Terminated (Socket_error ''Error closing socket: '' (Some 9))
   \<and> fst (socket_impl_dtor (snd (socket_from_fd (boot [] 1024) 7))
                            (socket_impl_default\<lparr>fd_ptr := 1\<rparr>))
       = Terminated (Socket_error ''Error closing socket: '' (Some 9))
   \<and> heap (snd (socket_dtor (snd (socket_from_fd (boot [] 1024) 7))
                             (fst (socket_from_fd (boot [] 1024) 7))))
          (fd_ptr (fst (socket_from_fd (boot [] 1024) 7)))
       = Some \<lparr>use_count = 1, pointee = 7\<rparr>"
proof -
  let ?m = "snd (socket_from_fd (boot [] 1024) 7)"
  let ?s = "fst (socket_from_fd (boot [] 1024) 7)"
  let ?si = "socket_impl_default\<lparr>fd_ptr := 1\<rparr>"
  have h1: "fd_ptr ?s \<noteq> 0"
    by (simp add: own_defs)
  have h2: "heap ?m (fd_ptr ?s) = Some \<lparr>use_count = 1, pointee = 7\<rparr>"
    by (simp add: own_defs)
  have v3: "fst (sys_close (kern ?m) 7) < 0"
    by (simp add: own_defs)
  then have h3: "fst (sys_close (kern ?m) (pointee \<lparr>use_count = 1, pointee = 7\<rparr>)) < 0"
    by simp
  have h4: "fd_ptr ?si = fd_ptr ?s"
    by (simp add: own_defs)
  have e: "fst (snd (sys_close (kern ?m) 7)) = 9"
    by (simp add: own_defs)
  note t = socket_dtor_terminates_when_close_fails [OF h1 h2 h3 h4]
  have a: "fst (socket_dtor ?m ?s) = Terminated (Socket_error ''Error closing socket: '' (Some 9))"
    using t [THEN conjunct1] e by simp
  have b: "fst (socket_impl_dtor ?m ?si)
           = Terminated (Socket_error ''Error closing socket: '' (Some 9))"
    using t [THEN conjunct2, THEN conjunct1] e by simp
  have c: "heap (snd (socket_dtor ?m ?s)) (fd_ptr ?s) = Some \<lparr>use_count = 1, pointee = 7\<rparr>"
    using t [THEN conjunct2, THEN conjunct2] h2 by simp
  show ?thesis
    by (intro conjI h1 h2 v3 h4 a b c)
qed

lemma sys_socket_negative:
  assumes "fst (sys_socket k) < 0"
  shows "sys_socket k = (- 1, EMFILE, k)"
proof (cases "find (\<lambda>i. int i \<notin> set (open_fds k)) [0..<fd_limit k]")
  case None
  then show ?thesis by (simp add: sys_socket_def)
next
  case (Some i)
  with assms show ?thesis by (simp add: sys_socket_def)
qed

text \<open>
  C4. The claim: when the address resolves and the \<^verbatim>\<open>socket\<close> call returns a negative
  result, \<^verbatim>\<open>create\<close> fails with the socket creation error. The code:
  \<^verbatim>\<open>socket_impl::create\<close> returns normally and the socket holds the negative descriptor,
  because the test compares the shared pointer, not the descriptor, with zero. The
  server's \<^verbatim>\<open>create\<close> goes on to \<^verbatim>\<open>setsockopt\<close> on that descriptor and fails there, with
  the socket option error.
\<close>

theorem create_ignores_socket_failure:
  assumes "fd_ptr s = 0" and "fst (getaddrinfo name port) = 0"
    and "fst (sys_socket (kern m)) < 0"
    and "\<forall>fd \<in> set (open_fds (kern m)). 0 \<le> fd"
  shows "(\<exists>s' m'. create getaddrinfo m s name port = (Inr s', m')
           \<and> map_option pointee (heap m' (fd_ptr s')) = Some (fst (sys_socket (kern m))))
         \<and> fst (server_create getaddrinfo m s name port)
           = Inl (Socket_error ''Could not configure socket: '' (Some EBADF))"
proof -
  obtain err ai where g: "getaddrinfo name port = (err, ai)"
    by (cases "getaddrinfo name port")
  with assms(2) have err: "err = 0" by simp
  have sock: "sys_socket (kern m) = (- 1, EMFILE, kern m)"
    using assms(3) by (rule sys_socket_negative)
  let ?a = "Suc (brk m)"
  let ?m' = "m\<lparr>heap := (heap m)(?a \<mapsto> \<lparr>use_count = 1, pointee = - 1\<rparr>), brk := ?a\<rparr>"
  let ?s' = "s\<lparr>fd_ptr := ?a, res0 := Some ai\<rparr>"
  have cr: "create getaddrinfo m s name port = (Inr ?s', ?m')"
    using assms(1) by (simp add: create_def g err sock make_shared_def Let_def)
  have closed: "(- 1 :: int) \<notin> set (open_fds (kern m))"
    using assms(4) by auto
  have "fst (server_create getaddrinfo m s name port)
        = Inl (Socket_error ''Could not configure socket: '' (Some EBADF))"
    using closed by (simp add: server_create_def cr sys_setsockopt_def)
  moreover have "map_option pointee (heap ?m' (fd_ptr ?s')) = Some (fst (sys_socket (kern m)))"
    by (simp add: sock)
  ultimately show ?thesis
    using cr by blast
qed

theorem create_ignores_socket_failure_witness:
  "fd_ptr socket_impl_default = 0 \<and> fst (resolve_ok ''localhost'' 8080) = 0
   \<and> fst (sys_socket (kern (boot [0, 1, 2] 3))) = - 1
   \<and> set (open_fds (kern (boot [0, 1, 2] 3))) = {0, 1, 2}
   \<and> fst (create resolve_ok (boot [0, 1, 2] 3) socket_impl_default ''localhost'' 8080)
       = Inr \<lparr>fd_ptr = 1, res0 = Some \<lparr>ai_family = 2, ai_socktype = 1, ai_protocol = 6\<rparr>\<rparr>
   \<and> heap (snd (create resolve_ok (boot [0, 1, 2] 3) socket_impl_default ''localhost'' 8080)) 1
       = Some \<lparr>use_count = 1, pointee = - 1\<rparr>
   \<and> fst (server_create resolve_ok (boot [0, 1, 2] 3) socket_impl_default ''localhost'' 8080)
       = Inl (Socket_error ''Could not configure socket: '' (Some EBADF))"
proof -
  have h1: "fd_ptr socket_impl_default = 0"
    by (simp add: socket_impl_default_def)
  have h2: "fst (resolve_ok ''localhost'' 8080) = 0"
    by (simp add: resolve_ok_def)
  have v: "fst (sys_socket (kern (boot [0, 1, 2] 3))) = - 1"
    by (simp add: boot_def sys_socket_def upt_rec)
  then have h3: "fst (sys_socket (kern (boot [0, 1, 2] 3))) < 0"
    by simp
  have fds: "set (open_fds (kern (boot [0, 1, 2] 3))) = {0, 1, 2}"
    by (simp add: boot_def)
  then have h4: "\<forall>fd \<in> set (open_fds (kern (boot [0, 1, 2] 3))). 0 \<le> fd"
    by simp
  note t = create_ignores_socket_failure
         [of socket_impl_default resolve_ok "''localhost''" 8080 "boot [0, 1, 2] 3", OF h1 h2 h3 h4]
  have a: "fst (create resolve_ok (boot [0, 1, 2] 3) socket_impl_default ''localhost'' 8080)
       = Inr \<lparr>fd_ptr = 1, res0 = Some \<lparr>ai_family = 2, ai_socktype = 1, ai_protocol = 6\<rparr>\<rparr>"
    by (simp add: create_def resolve_ok_def boot_def sys_socket_def upt_rec make_shared_def
          socket_impl_default_def Let_def)
  have b: "heap (snd (create resolve_ok (boot [0, 1, 2] 3) socket_impl_default ''localhost'' 8080)) 1
       = Some \<lparr>use_count = 1, pointee = - 1\<rparr>"
    by (simp add: create_def resolve_ok_def boot_def sys_socket_def upt_rec make_shared_def
          socket_impl_default_def Let_def)
  show ?thesis
    by (intro conjI h1 h2 v fds a b t [THEN conjunct2])
qed

subsection \<open>The request line\<close>

lemma takeWhile_neq_append:
  "a \<notin> set xs \<Longrightarrow> takeWhile (\<lambda>c. c \<noteq> a) (xs @ a # ys) = xs"
  by (induction xs) auto

lemma dropWhile_neq_append:
  "a \<notin> set xs \<Longrightarrow> dropWhile (\<lambda>c. c \<noteq> a) (xs @ a # ys) = a # ys"
  by (induction xs) auto

text \<open>
  A line made of a token without a space, a space, a prefix without slash or space, a
  slash, a path body without a space, a space and anything: the method comes from the
  token, the path is the slash and the body.
\<close>

lemma parse_request_line_shape:
  assumes m: "CHR '' '' \<notin> set m"
    and pre: "CHR ''/'' \<notin> set prefix" "CHR '' '' \<notin> set prefix"
    and p: "CHR '' '' \<notin> set p"
  shows "parse_request_line r (m @ '' '' @ prefix @ ''/'' @ p @ '' '' @ version)
         = Inr ((set_method r (lowercase m))\<lparr>req_path := ''/'' @ p\<rparr>)"
proof -
  let ?line = "m @ '' '' @ prefix @ ''/'' @ p @ '' '' @ version"
  have tw1: "takeWhile (\<lambda>c. c \<noteq> CHR '' '') ?line = m"
    using m by (simp add: takeWhile_neq_append)
  have dw1: "dropWhile (\<lambda>c. c \<noteq> CHR '' '') ?line = '' '' @ prefix @ ''/'' @ p @ '' '' @ version"
    using m by (simp add: dropWhile_neq_append)
  have dw2: "dropWhile (\<lambda>c. c \<noteq> CHR ''/'') ('' '' @ prefix @ ''/'' @ p @ '' '' @ version)
             = ''/'' @ p @ '' '' @ version"
    using pre by (simp add: dropWhile_neq_append)
  have tw3: "takeWhile (\<lambda>c. c \<noteq> CHR '' '') (''/'' @ p @ '' '' @ version) = ''/'' @ p"
    using takeWhile_neq_append [OF p, of version] by simp
  have dw3: "dropWhile (\<lambda>c. c \<noteq> CHR '' '') (''/'' @ p @ '' '' @ version) = '' '' @ version"
    using dropWhile_neq_append [OF p, of version] by simp
  show ?thesis
    unfolding parse_request_line_def Let_def tw1 dw1 dw2 tw3 dw3 by simp
qed


lemma lowercase_names:
  "lowercase ''CONNECT'' = ''connect''" "lowercase ''DELETE'' = ''delete''"
  "lowercase ''GET'' = ''get''" "lowercase ''HEAD'' = ''head''"
  "lowercase ''OPTIONS'' = ''options''" "lowercase ''POST'' = ''post''"
  "lowercase ''PUT'' = ''put''" "lowercase ''TRACE'' = ''trace''"
  by (simp_all add: lowercase_def tolower_def)

lemma set_method_lowered:
  "set_method r ''connect'' = r\<lparr>req_method := Some CONNECT\<rparr>"
  "set_method r ''delete'' = r\<lparr>req_method := Some DELETE\<rparr>"
  "set_method r ''get'' = r\<lparr>req_method := Some GET\<rparr>"
  "set_method r ''head'' = r\<lparr>req_method := Some HEAD\<rparr>"
  "set_method r ''options'' = r\<lparr>req_method := Some OPTIONS\<rparr>"
  "set_method r ''post'' = r\<lparr>req_method := Some POST\<rparr>"
  "set_method r ''put'' = r\<lparr>req_method := Some PUT\<rparr>"
  "set_method r ''trace'' = r\<lparr>req_method := Some TRACE\<rparr>"
  by (simp_all add: set_method_def)

lemma set_method_names:
  assumes "(m, v) \<in> set [(''CONNECT'', CONNECT), (''DELETE'', DELETE), (''GET'', GET), (''HEAD'', HEAD),
                  (''OPTIONS'', OPTIONS), (''POST'', POST), (''PUT'', PUT), (''TRACE'', TRACE)]"
  shows "set_method r (lowercase m) = r\<lparr>req_method := Some v\<rparr>"
proof -
  from assms have "(m, v) = (''CONNECT'', CONNECT) \<or> (m, v) = (''DELETE'', DELETE)
     \<or> (m, v) = (''GET'', GET) \<or> (m, v) = (''HEAD'', HEAD) \<or> (m, v) = (''OPTIONS'', OPTIONS)
     \<or> (m, v) = (''POST'', POST) \<or> (m, v) = (''PUT'', PUT) \<or> (m, v) = (''TRACE'', TRACE)"
    by (simp only: list.set insert_iff empty_iff simp_thms)
  then show ?thesis
    by (elim disjE) (simp_all only: prod.inject lowercase_names set_method_lowered)
qed

text \<open>
  C5. The claim: method and path are extracted exactly, whether or not a scheme or host
  prefix precedes the path. The code at \<^verbatim>\<open>GET http://h/p HTTP/1.1\<close>: the path starts at
  the first slash after the method, which is a slash of the scheme, and the path is
  \<^verbatim>\<open>//h/p\<close>; without the prefix it is \<^verbatim>\<open>/p\<close>.
\<close>

theorem request_line_scheme_prefix_counterexample:
  "parse_request_line request_init ''GET http://h/p HTTP/1.1''
     = Inr (request_init\<lparr>req_method := Some GET, req_path := ''//h/p''\<rparr>)
   \<and> parse_request_line request_init ''GET /p HTTP/1.1''
     = Inr (request_init\<lparr>req_method := Some GET, req_path := ''/p''\<rparr>)"
  by (simp add: parse_request_line_def set_method_def lowercase_def tolower_def Let_def)

text \<open>
  C5, amended. For every request line \<^verbatim>\<open>METHOD SP [prefix]/path SP version\<close> whose
  prefix holds neither a slash nor a space (the \<^verbatim>\<open>host[:port]\<close> of the source's comment),
  the parser produces the method of the token and the path exactly, with the same
  result as for the line without the prefix; each of the eight method names gives its
  own variant.
\<close>

theorem request_line_method_and_path:
  assumes "CHR '' '' \<notin> set m"
    and "CHR ''/'' \<notin> set prefix" and "CHR '' '' \<notin> set prefix"
    and "CHR '' '' \<notin> set p"
  shows "parse_request_line r (m @ '' '' @ prefix @ ''/'' @ p @ '' '' @ version)
           = Inr ((set_method r (lowercase m))\<lparr>req_path := ''/'' @ p\<rparr>)
         \<and> parse_request_line r (m @ '' '' @ prefix @ ''/'' @ p @ '' '' @ version)
           = parse_request_line r (m @ '' '' @ ''/'' @ p @ '' '' @ version)
         \<and> ((m, v) \<in> set [(''CONNECT'', CONNECT), (''DELETE'', DELETE), (''GET'', GET),
                           (''HEAD'', HEAD), (''OPTIONS'', OPTIONS), (''POST'', POST),
                           (''PUT'', PUT), (''TRACE'', TRACE)]
            \<longrightarrow> parse_request_line r (m @ '' '' @ prefix @ ''/'' @ p @ '' '' @ version)
                  = Inr (r\<lparr>req_method := Some v, req_path := ''/'' @ p\<rparr>))"
proof -
  have a: "parse_request_line r (m @ '' '' @ prefix @ ''/'' @ p @ '' '' @ version)
           = Inr ((set_method r (lowercase m))\<lparr>req_path := ''/'' @ p\<rparr>)"
    using assms by (rule parse_request_line_shape)
  have b: "parse_request_line r (m @ '' '' @ [] @ ''/'' @ p @ '' '' @ version)
           = Inr ((set_method r (lowercase m))\<lparr>req_path := ''/'' @ p\<rparr>)"
    using assms(1,4) by (intro parse_request_line_shape) simp_all
  show ?thesis
    using a b set_method_names [of m v r] by simp
qed

theorem request_line_method_and_path_witness:
  "CHR '' '' \<notin> set ''GET'' \<and> CHR ''/'' \<notin> set ''example.com:8080''
   \<and> CHR '' '' \<notin> set ''example.com:8080'' \<and> CHR '' '' \<notin> set ''index.html''
   \<and> (''GET'', GET) \<in> set [(''CONNECT'', CONNECT), (''DELETE'', DELETE), (''GET'', GET),
                           (''HEAD'', HEAD), (''OPTIONS'', OPTIONS), (''POST'', POST),
                           (''PUT'', PUT), (''TRACE'', TRACE)]
   \<and> parse_request_line request_init ''GET example.com:8080/index.html HTTP/1.1''
       = Inr (request_init\<lparr>req_method := Some GET, req_path := ''/index.html''\<rparr>)
   \<and> parse_request_line request_init ''GET example.com:8080/index.html HTTP/1.1''
       = parse_request_line request_init ''GET /index.html HTTP/1.1''"
proof -
  have h1: "CHR '' '' \<notin> set ''GET''" by simp
  have h2: "CHR ''/'' \<notin> set ''example.com:8080''" by simp
  have h3: "CHR '' '' \<notin> set ''example.com:8080''" by simp
  have h4: "CHR '' '' \<notin> set ''index.html''" by simp
  have h5: "(''GET'', GET) \<in> set [(''CONNECT'', CONNECT), (''DELETE'', DELETE), (''GET'', GET),
                           (''HEAD'', HEAD), (''OPTIONS'', OPTIONS), (''POST'', POST),
                           (''PUT'', PUT), (''TRACE'', TRACE)]" by simp
  from request_line_method_and_path [OF h1 h2 h3 h4, of request_init "''HTTP/1.1''" GET]
       h1 h2 h3 h4 h5
  show ?thesis
    by (simp add: parse_request_line_def set_method_def lowercase_def tolower_def Let_def)
qed




subsection \<open>Reading a line\<close>

lemma scan_eol_done: "scan_eol xs p 2 = (p, 2)"
  by (cases xs) simp_all

lemma scan_eol_clean:
  "CR \<notin> set l \<Longrightarrow> LF \<notin> set l \<Longrightarrow> scan_eol (l @ CR # LF # xs) p 0 = (p + length l + 2, 2)"
proof (induction l arbitrary: p)
  case Nil
  have two: "Suc (Suc 0) = 2" by simp
  show ?case by (simp add: two scan_eol_done)
next
  case (Cons a l)
  then show ?case by auto
qed

text \<open>
  A queue that starts with a line free of carriage returns and line feeds, then CR LF,
  all within the buffer: \<^verbatim>\<open>read_line\<close> returns the line and consumes it with its
  terminator.
\<close>

lemma read_line_clean:
  assumes ok: "rx_errno c = None"
    and q: "rxq c = l @ CRLF @ rest"
    and cr: "CR \<notin> set l" and lf: "LF \<notin> set l"
    and len: "length l + 2 \<le> BUFFER_SIZE"
  shows "read_line c = Inr (l, c\<lparr>rxq := rest\<rparr>)"
proof -
  let ?d = "l @ CR # LF # take (BUFFER_SIZE - (length l + 2)) rest"
  have room: "BUFFER_SIZE - length l = Suc (Suc (BUFFER_SIZE - (length l + 2)))"
    using len by simp
  have tk: "take BUFFER_SIZE (rxq c) = ?d"
    using len by (simp add: q CRLF_def room)
  have small: "length ?d \<le> 4096"
    using len by (simp add: BUFFER_SIZE_def)
  have peek: "read_block c BUFFER_SIZE True = Inr (length ?d, ?d, c)"
    using small unfolding read_block_def sys_recv_def Let_def ok tk
    by simp
  have sc: "scan_eol (l @ CR # LF # xs) 0 0 = (length l + 2, 2)" for xs
    using scan_eol_clean [OF cr lf, of xs 0] by simp
  have small2: "length l + 2 \<le> 4096"
    using len by (simp add: BUFFER_SIZE_def)
  have rd: "read_block c (length l + 2) False = Inr (length l + 2, l @ CRLF, c\<lparr>rxq := rest\<rparr>)"
    using small2 unfolding read_block_def sys_recv_def Let_def ok q
    by (simp add: CRLF_def)
  have "read_line c = (case read_block c (length l + 2) False of
                         Inl e \<Rightarrow> Inl e
                       | Inr (read_length2, buffer2, c2) \<Rightarrow>
                           if read_length2 < 2
                           then Inl (Undefined_behaviour ''string length read_length - 2 wraps'')
                           else Inr (take (read_length2 - 2) buffer2, c2))"
    unfolding read_line_def peek by (simp add: sc)
  also have "\<dots> = Inr (l, c\<lparr>rxq := rest\<rparr>)"
    unfolding rd by (simp add: CRLF_def)
  finally show ?thesis .
qed

text \<open>An empty queue: the peer has closed, \<^verbatim>\<open>recv\<close> returns 0, the line is empty.\<close>

lemma read_line_closed:
  "rx_errno c = None \<Longrightarrow> rxq c = [] \<Longrightarrow> read_line c = Inr ([], c)"
  by (simp add: read_line_def read_block_def sys_recv_def)

text \<open>
  C7. The claim: when the pending bytes begin with a line terminated by CR LF within the
  buffer, \<^verbatim>\<open>read_line\<close> returns the line, consumes the line and its terminator and
  leaves the bytes after it. The code at the pending bytes \<^verbatim>\<open>a LF b CR LF rest\<close>, whose
  first CR LF ends the line \<^verbatim>\<open>a LF b\<close>: the scan counts the bare line feed and the
  carriage return as the two end-of-line bytes, four bytes are consumed, the last two
  of them are dropped, and the result is \<^verbatim>\<open>a LF\<close> with \<^verbatim>\<open>LF rest\<close> left in the queue.
  (For a line without a carriage return or line feed the claim holds: \<open>read_line_clean\<close>.)
\<close>

theorem read_line_bare_line_feed:
  "read_line \<lparr>rxq = (''a'' @ [LF] @ ''b'') @ CRLF @ ''rest'', rx_errno = None\<rparr>
     = Inr (''a'' @ [LF], \<lparr>rxq = [LF] @ ''rest'', rx_errno = None\<rparr>)"
  by (simp add: read_line_def read_block_def sys_recv_def BUFFER_SIZE_def CR_def LF_def CRLF_def
        Let_def)

subsection \<open>The header map\<close>

lemma key_equiv_iff: "key_equiv a b \<longleftrightarrow> lowercase a = lowercase b"
  by (auto simp: key_equiv_def no_case_compare_def)

lemma key_equiv_refl: "key_equiv k k"
  by (simp add: key_equiv_iff)

lemma map_find_assign_same: "map_find (map_assign h k v) k = Some v"
  by (induction h k v rule: map_assign.induct) (auto simp: key_equiv_refl)

lemma map_subscript_present: "map_find h k \<noteq> None \<Longrightarrow> snd (map_subscript h k) = h"
  by (cases "map_find h k") (simp_all add: map_subscript_def)

lemma map_find_subscript: "\<exists>v. map_find (snd (map_subscript h k)) k = Some v"
  by (cases "map_find h k") (simp_all add: map_subscript_def map_find_assign_same)

lemma name_stored_step: "name_stored (header_line_step oob st l)"
  by (simp add: name_stored_def header_line_step_def Let_def map_find_assign_same
        map_find_subscript split: list.splits)

lemma name_stored_init: "name_stored ([], h)"
  by (simp add: name_stored_def)

lemma name_stored_foldl:
  "name_stored st \<Longrightarrow> name_stored (foldl (header_line_step oob) st ls)"
  by (induction ls arbitrary: st) (simp_all add: name_stored_step)

lemma dropWhile_no_colon:
  "CHR '':'' \<notin> set l \<Longrightarrow> dropWhile (\<lambda>c. c \<noteq> CHR '':'') (dropWhile (\<lambda>c. c = CHR '' '') l) = []"
proof -
  assume a: "CHR '':'' \<notin> set l"
  have "set (dropWhile (\<lambda>c. c = CHR '' '') l) \<subseteq> set l"
    using set_dropWhileD by fastforce
  with a have "\<forall>x \<in> set (dropWhile (\<lambda>c. c = CHR '' '') l). x \<noteq> CHR '':''"
    by auto
  then show ?thesis by simp
qed

lemma header_line_step_ignored:
  assumes "name_stored st" and "\<not> is_continuation oob st" and "CHR '':'' \<notin> set l"
  shows "header_line_step oob st l = st"
proof (cases st)
  case (Pair name h)
  have dw: "dropWhile (\<lambda>c. c \<noteq> CHR '':'') (dropWhile (\<lambda>c. c = CHR '' '') l) = []"
    using assms(3) by (rule dropWhile_no_colon)
  have h1: "name \<noteq> [] \<Longrightarrow> snd (map_subscript h name) = h"
    using assms(1) Pair by (auto simp: name_stored_def map_subscript_present)
  show ?thesis
    using assms(2) Pair h1
    by (auto simp: header_line_step_def is_continuation_def Let_def dw)
qed

lemma encode_lines_Cons: "encode_lines (l # ls) = l @ CRLF @ encode_lines ls"
  by (simp add: encode_lines_def)

lemma encode_lines_Nil: "encode_lines [] = []"
  by (simp add: encode_lines_def)

subsection \<open>The header loop on a block of lines\<close>

lemma process_header_loop_lines:
  assumes fin: "read_line (c0\<lparr>rxq := tail\<rparr>) = Inr ([], cfin)"
  shows "rx_errno c = None \<Longrightarrow> \<forall>l \<in> set ls. readable_line l \<Longrightarrow> rxq c = encode_lines ls @ tail
         \<Longrightarrow> c\<lparr>rxq := tail\<rparr> = c0\<lparr>rxq := tail\<rparr>
         \<Longrightarrow> header_line \<noteq> []
         \<Longrightarrow> process_header_loop oob c header_line st
             = Inr (snd (foldl (header_line_step oob) st (header_line # ls)), cfin)"
proof (induction ls arbitrary: c header_line st)
  case Nil
  from Nil(3) have "c\<lparr>rxq := tail\<rparr> = c"
    by (simp add: encode_lines_Nil)
  with fin Nil(4) have rd: "read_line c = Inr ([], cfin)"
    by simp
  show ?case
    using Nil(5) by (subst process_header_loop.simps) (simp add: rd process_header_loop.simps)
next
  case (Cons l ls)
  from Cons.prems(2) have rl: "readable_line l" and rest: "\<forall>l \<in> set ls. readable_line l"
    by simp_all
  let ?c' = "c\<lparr>rxq := encode_lines ls @ tail\<rparr>"
  have q: "rxq c = l @ CRLF @ (encode_lines ls @ tail)"
    using Cons.prems(3) by (simp add: encode_lines_Cons)
  have rd: "read_line c = Inr (l, ?c')"
    using rl Cons.prems(1) q unfolding readable_line_def
    by (intro read_line_clean) simp_all
  have ne: "l \<noteq> []"
    using rl by (simp add: readable_line_def)
  have same: "?c'\<lparr>rxq := tail\<rparr> = c0\<lparr>rxq := tail\<rparr>"
    using Cons.prems(4) by simp
  have ih: "process_header_loop oob ?c' l (header_line_step oob st header_line)
            = Inr (snd (foldl (header_line_step oob) (header_line_step oob st header_line) (l # ls)), cfin)"
    using Cons.prems(1) rest same ne by (intro Cons.IH) simp_all
  have "process_header_loop oob c header_line st
        = process_header_loop oob ?c' l (header_line_step oob st header_line)"
    using Cons.prems(5) by (subst process_header_loop.simps) (simp add: rd)
  then show ?case
    by (simp add: ih)
qed

lemma process_header_lines_block:
  assumes fin: "read_line (c\<lparr>rxq := tail\<rparr>) = Inr ([], cfin)"
    and ok: "rx_errno c = None"
    and rl: "\<forall>l \<in> set ls. readable_line l"
    and q: "rxq c = encode_lines ls @ tail"
  shows "process_header_lines oob r c
         = Inr (r\<lparr>req_header := snd (foldl (header_line_step oob) ([], req_header r) ls)\<rparr>, cfin)"
proof (cases ls)
  case Nil
  with q have "c\<lparr>rxq := tail\<rparr> = c"
    by (simp add: encode_lines_Nil)
  with fin have rd: "read_line c = Inr ([], cfin)"
    by simp
  show ?thesis
    unfolding process_header_lines_def rd using Nil by (simp add: process_header_loop.simps)
next
  case (Cons l ls')
  from rl Cons have rl1: "readable_line l" and rest: "\<forall>l \<in> set ls'. readable_line l"
    by simp_all
  let ?c' = "c\<lparr>rxq := encode_lines ls' @ tail\<rparr>"
  have q': "rxq c = l @ CRLF @ (encode_lines ls' @ tail)"
    using q Cons by (simp add: encode_lines_Cons)
  have rd: "read_line c = Inr (l, ?c')"
    using rl1 ok q' unfolding readable_line_def
    by (intro read_line_clean) simp_all
  have ne: "l \<noteq> []"
    using rl1 by (simp add: readable_line_def)
  have loop: "process_header_loop oob ?c' l ([], req_header r)
              = Inr (snd (foldl (header_line_step oob) ([], req_header r) (l # ls')), cfin)"
    using fin ok rest ne by (intro process_header_loop_lines [where ?c0.0 = c and tail = tail]) simp_all
  show ?thesis
    unfolding process_header_lines_def rd using Cons by (simp add: loop)
qed

lemma read_line_blank:
  "rx_errno c = None \<Longrightarrow> read_line (c\<lparr>rxq := CRLF @ body\<rparr>) = Inr ([], c\<lparr>rxq := body\<rparr>)"
  using read_line_clean [of "c\<lparr>rxq := CRLF @ body\<rparr>" "[]" body]
  by (simp add: BUFFER_SIZE_def)

lemma read_line_eof:
  "rx_errno c = None \<Longrightarrow> read_line (c\<lparr>rxq := []\<rparr>) = Inr ([], c\<lparr>rxq := []\<rparr>)"
  by (simp add: read_line_closed)

lemma scan_eol_none:
  "CR \<notin> set xs \<Longrightarrow> LF \<notin> set xs \<Longrightarrow> scan_eol xs p 0 = (p + length xs, 0)"
  by (induction xs arbitrary: p) auto

lemma read_line_too_long:
  assumes ok: "rx_errno c = None"
    and q: "rxq c = l @ rest"
    and cr: "CR \<notin> set l" and lf: "LF \<notin> set l"
    and len: "BUFFER_SIZE \<le> length l"
  shows "read_line c = Inl (Socket_error ''Line not found'' None)"
proof -
  let ?d = "take BUFFER_SIZE l"
  have tk: "take BUFFER_SIZE (rxq c) = ?d"
    using len by (simp add: q)
  have ld: "length ?d = 4096"
    using len by (simp add: BUFFER_SIZE_def)
  have peek: "read_block c BUFFER_SIZE True = Inr (4096, ?d, c)"
    unfolding read_block_def sys_recv_def Let_def ok tk using ld by simp
  have "CR \<notin> set ?d" and "LF \<notin> set ?d"
    using cr lf by (auto dest: in_set_takeD)
  then have sc: "scan_eol ?d 0 0 = (4096, 0)"
    using scan_eol_none [of ?d 0] ld by simp
  show ?thesis
    unfolding read_line_def peek by (simp add: sc)
qed

subsection \<open>Header lines\<close>

lemmas hdr_eval = process_header_lines_def process_header_loop.simps header_line_step_def
  map_subscript_def key_equiv_iff lowercase_def tolower_def read_line_def read_block_def
  sys_recv_def BUFFER_SIZE_def CR_def LF_def CRLF_def Let_def request_init_def

text \<open>
  C3. The claim: a line that follows a header value ending in a comma is a continuation,
  so that the blocks \<^verbatim>\<open>X: a,\<close> / \<^verbatim>\<open>  b\<close> and \<^verbatim>\<open>X: a, b\<close> store the same value for X. The
  code does not look at the last character of the stored value: it reads the byte before
  its first character. Whenever that byte is not a comma, the line \<^verbatim>\<open>b\<close> is not
  appended; it has no colon and is dropped, and X is \<^verbatim>\<open>a,\<close> in the first block and
  \<^verbatim>\<open>a, b\<close> in the second.
\<close>

theorem header_continuation_not_taken:
  assumes "oob ''a,'' \<noteq> CHR '',''"
  shows "process_header_lines oob request_init
           \<lparr>rxq = ''X: a,'' @ CRLF @ ''  b'' @ CRLF @ CRLF, rx_errno = None\<rparr>
         = Inr (request_init\<lparr>req_header := [(''X'', ''a,'')]\<rparr>, \<lparr>rxq = [], rx_errno = None\<rparr>)
       \<and> process_header_lines oob request_init
           \<lparr>rxq = ''X: a, b'' @ CRLF @ CRLF, rx_errno = None\<rparr>
         = Inr (request_init\<lparr>req_header := [(''X'', ''a, b'')]\<rparr>, \<lparr>rxq = [], rx_errno = None\<rparr>)"
  using assms by (simp add: hdr_eval)

theorem header_continuation_not_taken_witness:
  "zero_byte ''a,'' \<noteq> CHR '',''
   \<and> process_header_lines zero_byte request_init
           \<lparr>rxq = ''X: a,'' @ CRLF @ ''  b'' @ CRLF @ CRLF, rx_errno = None\<rparr>
         = Inr (request_init\<lparr>req_header := [(''X'', ''a,'')]\<rparr>, \<lparr>rxq = [], rx_errno = None\<rparr>)
   \<and> process_header_lines zero_byte request_init
           \<lparr>rxq = ''X: a, b'' @ CRLF @ CRLF, rx_errno = None\<rparr>
         = Inr (request_init\<lparr>req_header := [(''X'', ''a, b'')]\<rparr>, \<lparr>rxq = [], rx_errno = None\<rparr>)"
proof -
  have h: "zero_byte ''a,'' \<noteq> CHR '',''"
    by (simp add: zero_byte_def)
  from header_continuation_not_taken [of zero_byte, OF h] h show ?thesis
    by simp
qed

text \<open>
  C9. The claim: for every header block, header parsing never fails. The code at a
  header line of 4096 bytes: no terminator is found in the buffer of \<^verbatim>\<open>read_line\<close>,
  which throws, and \<^verbatim>\<open>process_header_lines\<close> does not catch.
\<close>

theorem header_line_too_long_counterexample:
  "process_header_lines zero_byte request_init
     \<lparr>rxq = replicate 4096 (CHR ''a'') @ CRLF @ CRLF, rx_errno = None\<rparr>
   = Inl (Socket_error ''Line not found'' None)"
proof -
  have "read_line \<lparr>rxq = replicate 4096 (CHR ''a'') @ CRLF @ CRLF, rx_errno = None\<rparr>
        = Inl (Socket_error ''Line not found'' None)"
    by (rule read_line_too_long [where l = "replicate 4096 (CHR ''a'')" and rest = "CRLF @ CRLF"])
       (simp_all add: CR_def LF_def BUFFER_SIZE_def)
  then show ?thesis
    by (simp add: process_header_lines_def)
qed

text \<open>
  C9, amended. On a connection whose receives do not fail, for every header block whose
  lines are readable (not blank, free of carriage returns and line feeds, and within
  the buffer with their terminator) and that ends with a blank line, header parsing
  returns normally; a line without a colon that is not taken as a continuation stores
  nothing, and the lines before and after it are parsed into the map as if it were
  absent.
\<close>

theorem header_lines_junk_ignored:
  assumes "rx_errno c = None"
    and "\<forall>l \<in> set (pre @ [junk] @ post). readable_line l"
    and "CHR '':'' \<notin> set junk"
    and "\<not> is_continuation oob (foldl (header_line_step oob) ([], req_header r) pre)"
  shows "process_header_lines oob r (c\<lparr>rxq := encode_lines (pre @ [junk] @ post) @ CRLF @ body\<rparr>)
           = Inr (r\<lparr>req_header := snd (foldl (header_line_step oob) ([], req_header r) (pre @ post))\<rparr>,
                  c\<lparr>rxq := body\<rparr>)
         \<and> process_header_lines oob r (c\<lparr>rxq := encode_lines (pre @ [junk] @ post) @ CRLF @ body\<rparr>)
           = process_header_lines oob r (c\<lparr>rxq := encode_lines (pre @ post) @ CRLF @ body\<rparr>)"
proof -
  let ?st = "foldl (header_line_step oob) ([], req_header r) pre"
  have stored: "name_stored ?st"
    by (intro name_stored_foldl name_stored_init)
  have skip: "header_line_step oob ?st junk = ?st"
    using stored assms(4,3) by (rule header_line_step_ignored)
  have fold: "foldl (header_line_step oob) ([], req_header r) (pre @ [junk] @ post)
              = foldl (header_line_step oob) ([], req_header r) (pre @ post)"
    by (simp add: skip)
  have fin: "read_line (c\<lparr>rxq := CRLF @ body\<rparr>) = Inr ([], c\<lparr>rxq := body\<rparr>)"
    using assms(1) by (rule read_line_blank)
  have with_junk:
    "process_header_lines oob r (c\<lparr>rxq := encode_lines (pre @ [junk] @ post) @ CRLF @ body\<rparr>)
     = Inr (r\<lparr>req_header := snd (foldl (header_line_step oob) ([], req_header r) (pre @ [junk] @ post))\<rparr>,
            c\<lparr>rxq := body\<rparr>)"
    using fin assms(1,2)
    by (intro process_header_lines_block [where tail = "CRLF @ body"]) simp_all
  have rest: "\<forall>l \<in> set (pre @ post). readable_line l"
    using assms(2) by simp
  have without:
    "process_header_lines oob r (c\<lparr>rxq := encode_lines (pre @ post) @ CRLF @ body\<rparr>)
     = Inr (r\<lparr>req_header := snd (foldl (header_line_step oob) ([], req_header r) (pre @ post))\<rparr>,
            c\<lparr>rxq := body\<rparr>)"
    using fin assms(1) rest
    by (intro process_header_lines_block [where tail = "CRLF @ body"]) simp_all
  show ?thesis
    unfolding with_junk without fold by simp
qed

theorem header_lines_junk_ignored_witness:
  "rx_errno \<lparr>rxq = [], rx_errno = None\<rparr> = None
   \<and> readable_line ''Host: x'' \<and> readable_line ''junk'' \<and> readable_line ''Accept: y''
   \<and> CHR '':'' \<notin> set ''junk''
   \<and> \<not> is_continuation zero_byte
          (foldl (header_line_step zero_byte) ([], req_header request_init) [''Host: x''])
   \<and> process_header_lines zero_byte request_init
        \<lparr>rxq = encode_lines [''Host: x'', ''junk'', ''Accept: y''] @ CRLF @ ''body'', rx_errno = None\<rparr>
       = Inr (request_init\<lparr>req_header := [(''Host'', ''x''), (''Accept'', ''y'')]\<rparr>,
              \<lparr>rxq = ''body'', rx_errno = None\<rparr>)
   \<and> process_header_lines zero_byte request_init
        \<lparr>rxq = encode_lines [''Host: x'', ''junk'', ''Accept: y''] @ CRLF @ ''body'', rx_errno = None\<rparr>
       = process_header_lines zero_byte request_init
        \<lparr>rxq = encode_lines [''Host: x'', ''Accept: y''] @ CRLF @ ''body'', rx_errno = None\<rparr>"
proof -
  let ?c = "\<lparr>rxq = [], rx_errno = None\<rparr>"
  have h1: "rx_errno ?c = None" by simp
  have r: "readable_line ''Host: x''" "readable_line ''junk''" "readable_line ''Accept: y''"
    by (simp_all add: readable_line_def CR_def LF_def BUFFER_SIZE_def)
  then have h2: "\<forall>l \<in> set ([''Host: x''] @ [''junk''] @ [''Accept: y'']). readable_line l"
    by simp
  have h3: "CHR '':'' \<notin> set ''junk''" by simp
  have h4: "\<not> is_continuation zero_byte
          (foldl (header_line_step zero_byte) ([], req_header request_init) [''Host: x''])"
    by (simp add: is_continuation_def zero_byte_def)
  have v: "snd (foldl (header_line_step zero_byte) ([], req_header request_init)
                  ([''Host: x''] @ [''Accept: y'']))
           = [(''Host'', ''x''), (''Accept'', ''y'')]"
    by (simp add: header_line_step_def map_subscript_def key_equiv_iff lowercase_def tolower_def
          zero_byte_def request_init_def Let_def)
  note t = header_lines_junk_ignored [OF h1 h2 h3 h4, of "''body''"]
  have a: "process_header_lines zero_byte request_init
        \<lparr>rxq = encode_lines [''Host: x'', ''junk'', ''Accept: y''] @ CRLF @ ''body'', rx_errno = None\<rparr>
       = Inr (request_init\<lparr>req_header := [(''Host'', ''x''), (''Accept'', ''y'')]\<rparr>,
              \<lparr>rxq = ''body'', rx_errno = None\<rparr>)"
    using t [THEN conjunct1] v by simp
  have b: "process_header_lines zero_byte request_init
        \<lparr>rxq = encode_lines [''Host: x'', ''junk'', ''Accept: y''] @ CRLF @ ''body'', rx_errno = None\<rparr>
       = process_header_lines zero_byte request_init
        \<lparr>rxq = encode_lines [''Host: x'', ''Accept: y''] @ CRLF @ ''body'', rx_errno = None\<rparr>"
    using t [THEN conjunct2] by simp
  show ?thesis
    by (intro conjI h1 r h3 h4 a b)
qed

subsection \<open>Looking a header up\<close>

lemma map_find_variant: "lowercase n = lowercase n' \<Longrightarrow> map_find h n = map_find h n'"
  by (induction h) (auto simp: key_equiv_iff)

lemma map_count_variant: "lowercase n = lowercase n' \<Longrightarrow> map_count h n = map_count h n'"
  by (simp add: map_count_def key_equiv_iff)

lemma keys_map_assign:
  "set (map (\<lambda>e. lowercase (fst e)) (map_assign h k v))
   \<subseteq> insert (lowercase k) (set (map (\<lambda>e. lowercase (fst e)) h))"
  by (induction h k v rule: map_assign.induct) auto

lemma distinct_keys_assign: "distinct_keys h \<Longrightarrow> distinct_keys (map_assign h k v)"
proof (induction h k v rule: map_assign.induct)
  case (1 k v)
  show ?case by (simp add: distinct_keys_def)
next
  case (2 k' v' h k v)
  show ?case
  proof (cases "key_equiv k' k")
    case True
    with 2 show ?thesis by (simp add: distinct_keys_def)
  next
    case False
    then have ne: "lowercase k' \<noteq> lowercase k"
      by (simp add: key_equiv_iff)
    from 2 False have d: "distinct_keys (map_assign h k v)"
      by (simp add: distinct_keys_def)
    from 2(2) have fresh: "lowercase k' \<notin> set (map (\<lambda>e. lowercase (fst e)) h)"
      by (simp add: distinct_keys_def)
    with ne keys_map_assign [of h k v]
    have "lowercase k' \<notin> set (map (\<lambda>e. lowercase (fst e)) (map_assign h k v))"
      by blast
    with d False show ?thesis
      by (simp add: distinct_keys_def)
  qed
qed

lemma distinct_keys_subscript: "distinct_keys h \<Longrightarrow> distinct_keys (snd (map_subscript h k))"
  by (cases "map_find h k") (simp_all add: map_subscript_def distinct_keys_assign)

lemma distinct_keys_step:
  "distinct_keys (snd st) \<Longrightarrow> distinct_keys (snd (header_line_step oob st l))"
  by (simp add: header_line_step_def Let_def distinct_keys_assign distinct_keys_subscript
        split: list.splits)

lemma distinct_keys_foldl:
  "distinct_keys (snd st) \<Longrightarrow> distinct_keys (snd (foldl (header_line_step oob) st ls))"
  by (induction ls arbitrary: st) (simp_all add: distinct_keys_step)

lemma map_find_entry:
  "distinct_keys h \<Longrightarrow> (k, v) \<in> set h \<Longrightarrow> lowercase n = lowercase k \<Longrightarrow> map_find h n = Some v"
proof (induction h)
  case Nil
  then show ?case by simp
next
  case (Cons e h)
  obtain k' v' where e: "e = (k', v')" by (cases e)
  show ?case
  proof (cases "(k, v) = e")
    case True
    with Cons.prems(3) e show ?thesis by (simp add: key_equiv_iff)
  next
    case False
    with Cons.prems(2) have mem: "(k, v) \<in> set h" by simp
    then have inside: "lowercase k \<in> set (map (\<lambda>e. lowercase (fst e)) h)"
      by force
    from Cons.prems(1) e have "lowercase k' \<notin> set (map (\<lambda>e. lowercase (fst e)) h)"
      by (simp add: distinct_keys_def)
    with inside have "lowercase k' \<noteq> lowercase k"
      by metis
    moreover from Cons.prems(1) have "distinct_keys h"
      by (simp add: distinct_keys_def)
    ultimately show ?thesis
      using Cons.IH mem Cons.prems(3) e by (simp add: key_equiv_iff)
  qed
qed

text \<open>
  C8. Lookup is case-insensitive on the key. Whatever bytes the connection delivers, when
  \<^verbatim>\<open>process_header_lines\<close> returns a request, \<^verbatim>\<open>header\<close> gives the same result for a
  name and for every case variant of it, and \<^verbatim>\<open>has_header\<close> agrees on them. For a
  block of readable lines terminated by a blank line, parsed into a request that had no
  headers, the request is produced and every entry of its map is returned under every
  case variant of its key.
\<close>

theorem header_lookup_ignores_case:
  assumes "lowercase n = lowercase n'"
  shows "(process_header_lines oob r c = Inr (r', c')
            \<longrightarrow> header r' n = header r' n' \<and> has_header r' n = has_header r' n')
         \<and> (rx_errno c = None \<and> (\<forall>l \<in> set ls. readable_line l)
              \<and> rxq c = encode_lines ls @ CRLF @ body \<and> req_header r = []
            \<longrightarrow> (\<exists>r''. process_header_lines oob r c = Inr (r'', c\<lparr>rxq := body\<rparr>)
                   \<and> (\<forall>e \<in> set (req_header r''). lowercase n = lowercase (fst e)
                          \<longrightarrow> header r'' n = Inr (snd e) \<and> header r'' n' = Inr (snd e))))"
proof (intro conjI impI)
  show "header r' n = header r' n'"
    using assms by (simp add: header_def map_find_variant [of n n'])
  show "has_header r' n = has_header r' n'"
    using assms by (simp add: has_header_def map_count_variant [of n n'])
next
  assume block: "rx_errno c = None \<and> (\<forall>l \<in> set ls. readable_line l)
              \<and> rxq c = encode_lines ls @ CRLF @ body \<and> req_header r = []"
  let ?h = "snd (foldl (header_line_step oob) ([], req_header r) ls)"
  let ?r = "r\<lparr>req_header := ?h\<rparr>"
  from block have ok: "rx_errno c = None" and rl: "\<forall>l \<in> set ls. readable_line l"
    and q: "rxq c = encode_lines ls @ CRLF @ body" and empty: "req_header r = []"
    by simp_all
  have fin: "read_line (c\<lparr>rxq := CRLF @ body\<rparr>) = Inr ([], c\<lparr>rxq := body\<rparr>)"
    using ok by (rule read_line_blank)
  have run: "process_header_lines oob r c = Inr (?r, c\<lparr>rxq := body\<rparr>)"
    using fin ok rl q by (rule process_header_lines_block)
  have d: "distinct_keys ?h"
    using empty by (intro distinct_keys_foldl) (simp add: distinct_keys_def)
  have found: "header ?r n = Inr (snd e) \<and> header ?r n' = Inr (snd e)"
    if "e \<in> set ?h" and "lowercase n = lowercase (fst e)" for e
  proof -
    from that(1) have mem: "(fst e, snd e) \<in> set ?h" by simp
    from d mem that(2) have "map_find ?h n = Some (snd e)"
      by (rule map_find_entry)
    moreover from that(2) assms have "lowercase n' = lowercase (fst e)"
      by simp
    with d mem have "map_find ?h n' = Some (snd e)"
      by (rule map_find_entry)
    ultimately show ?thesis by (simp add: header_def)
  qed
  show "\<exists>r''. process_header_lines oob r c = Inr (r'', c\<lparr>rxq := body\<rparr>)
                   \<and> (\<forall>e \<in> set (req_header r''). lowercase n = lowercase (fst e)
                          \<longrightarrow> header r'' n = Inr (snd e) \<and> header r'' n' = Inr (snd e))"
    using run found by (intro exI [of _ ?r]) simp
qed

theorem header_lookup_ignores_case_witness:
  "lowercase ''Host'' = lowercase ''hOST''
   \<and> rx_errno \<lparr>rxq = encode_lines [''Host: x''] @ CRLF @ ''body'', rx_errno = None\<rparr> = None
   \<and> readable_line ''Host: x''
   \<and> req_header request_init = []
   \<and> process_header_lines zero_byte request_init
         \<lparr>rxq = encode_lines [''Host: x''] @ CRLF @ ''body'', rx_errno = None\<rparr>
       = Inr (request_init\<lparr>req_header := [(''Host'', ''x'')]\<rparr>, \<lparr>rxq = ''body'', rx_errno = None\<rparr>)
   \<and> header (request_init\<lparr>req_header := [(''Host'', ''x'')]\<rparr>) ''Host'' = Inr ''x''
   \<and> header (request_init\<lparr>req_header := [(''Host'', ''x'')]\<rparr>) ''hOST'' = Inr ''x''
   \<and> has_header (request_init\<lparr>req_header := [(''Host'', ''x'')]\<rparr>) ''hOST''"
proof -
  let ?c = "\<lparr>rxq = encode_lines [''Host: x''] @ CRLF @ ''body'', rx_errno = None\<rparr>"
  let ?r = "request_init\<lparr>req_header := [(''Host'', ''x'')]\<rparr>"
  have h0: "lowercase ''Host'' = lowercase ''hOST''" by (simp add: lowercase_def tolower_def)
  have h1: "rx_errno ?c = None" by simp
  have r1: "readable_line ''Host: x''"
    by (simp add: readable_line_def CR_def LF_def BUFFER_SIZE_def)
  then have h2: "\<forall>l \<in> set [''Host: x'']. readable_line l"
    by simp
  have h3: "rxq ?c = encode_lines [''Host: x''] @ CRLF @ ''body''" by simp
  have h4: "req_header request_init = []" by (simp add: request_init_def)
  have v: "snd (foldl (header_line_step zero_byte) ([], req_header request_init) [''Host: x''])
           = [(''Host'', ''x'')]"
    by (simp add: header_line_step_def request_init_def Let_def)
  have fin: "read_line (?c\<lparr>rxq := CRLF @ ''body''\<rparr>) = Inr ([], ?c\<lparr>rxq := ''body''\<rparr>)"
    using h1 by (rule read_line_blank)
  have run: "process_header_lines zero_byte request_init ?c
             = Inr (?r, \<lparr>rxq = ''body'', rx_errno = None\<rparr>)"
    using process_header_lines_block [OF fin h1 h2 h3, of zero_byte request_init] v by simp
  note t = header_lookup_ignores_case
             [OF h0, of zero_byte request_init ?c ?r "\<lparr>rxq = ''body'', rx_errno = None\<rparr>"
                        "[''Host: x'']" "''body''"]
  from t [THEN conjunct1] run
  have same: "header ?r ''Host'' = header ?r ''hOST''"
    and has: "has_header ?r ''Host'' = has_header ?r ''hOST''"
    by simp_all
  from t [THEN conjunct2] h1 h2 h3 h4
  obtain r'' where r'': "process_header_lines zero_byte request_init ?c = Inr (r'', ?c\<lparr>rxq := ''body''\<rparr>)"
    and entry: "\<forall>e \<in> set (req_header r''). lowercase ''Host'' = lowercase (fst e)
                  \<longrightarrow> header r'' ''Host'' = Inr (snd e) \<and> header r'' ''hOST'' = Inr (snd e)"
    by blast
  from r'' run have eq: "r'' = ?r"
    by simp
  from entry eq have a: "header ?r ''Host'' = Inr ''x''" and b: "header ?r ''hOST'' = Inr ''x''"
    by simp_all
  have "has_header ?r ''Host''"
    by (simp add: has_header_def map_count_def key_equiv_iff)
  with has have c: "has_header ?r ''hOST''"
    by simp
  show ?thesis
    by (intro conjI h0 h1 r1 h4 run a b c)
qed

subsection \<open>A peer that closes early\<close>

lemma req_header_set_method: "req_header (set_method r m) = req_header r"
  by (simp add: set_method_def)

lemma parse_request_line_header:
  assumes "parse_request_line r0 l = Inr r"
  shows "req_header r = req_header r0"
proof -
  let ?last1 = "dropWhile (\<lambda>c. c \<noteq> CHR '' '') l"
  let ?first = "dropWhile (\<lambda>c. c \<noteq> CHR ''/'') ?last1"
  let ?last2 = "dropWhile (\<lambda>c. c \<noteq> CHR '' '') ?first"
  let ?r1 = "set_method r0 (lowercase (takeWhile (\<lambda>c. c \<noteq> CHR '' '') l))"
  have a: "?last1 \<noteq> []"
  proof
    assume "?last1 = []"
    then have "parse_request_line r0 l = Inl (Request_error (''Invalid request line: '' @ l))"
      unfolding parse_request_line_def Let_def by (simp only: if_True simp_thms)
    with assms show False by simp
  qed
  have b: "?first \<noteq> []"
  proof
    assume "?first = []"
    with a have "parse_request_line r0 l = Inl (Request_error (''Invalid request line: '' @ l))"
      unfolding parse_request_line_def Let_def by (simp only: if_True if_False simp_thms)
    with assms show False by simp
  qed
  have c: "?last2 \<noteq> []"
  proof
    assume "?last2 = []"
    with a b have "parse_request_line r0 l = Inl (Request_error (''Invalid request line: '' @ l))"
      unfolding parse_request_line_def Let_def by (simp only: if_True if_False simp_thms)
    with assms show False by simp
  qed
  from a b c have "parse_request_line r0 l
                   = Inr (?r1\<lparr>req_path := takeWhile (\<lambda>c. c \<noteq> CHR '' '') ?first\<rparr>)"
    unfolding parse_request_line_def Let_def by (simp only: if_False simp_thms)
  with assms have "r = ?r1\<lparr>req_path := takeWhile (\<lambda>c. c \<noteq> CHR '' '') ?first\<rparr>"
    by simp
  then show ?thesis
    by (simp add: req_header_set_method)
qed

text \<open>
  C10. When the queue is empty because the peer has closed, \<^verbatim>\<open>read_line\<close> returns the
  empty string and raises nothing. A connection that carries a request line and whole
  header lines and is then closed, without the blank line, gives the same request as
  one that ends with the blank line: the request of the request line with the headers
  parsed so far.
\<close>

theorem request_ctor_peer_closed:
  assumes "rx_errno c = None"
    and "readable_line rl"
    and "\<forall>l \<in> set ls. readable_line l"
    and "parse_request_line request_init rl = Inr r"
  shows "read_line (c\<lparr>rxq := []\<rparr>) = Inr ([], c\<lparr>rxq := []\<rparr>)
         \<and> request_ctor oob (c\<lparr>rxq := encode_lines (rl # ls)\<rparr>)
           = Inr (r\<lparr>req_header := snd (foldl (header_line_step oob) ([], []) ls)\<rparr>, c\<lparr>rxq := []\<rparr>)
         \<and> request_ctor oob (c\<lparr>rxq := encode_lines (rl # ls)\<rparr>)
           = request_ctor oob (c\<lparr>rxq := encode_lines (rl # ls) @ CRLF\<rparr>)"
proof -
  have eof: "read_line (c\<lparr>rxq := []\<rparr>) = Inr ([], c\<lparr>rxq := []\<rparr>)"
    using assms(1) by (rule read_line_eof)
  have blank: "read_line (c\<lparr>rxq := CRLF @ []\<rparr>) = Inr ([], c\<lparr>rxq := []\<rparr>)"
    using assms(1) by (rule read_line_blank)
  have hdr: "req_header r = []"
    using parse_request_line_header [OF assms(4)] by (simp add: request_init_def)
  have first: "read_line (c\<lparr>rxq := encode_lines (rl # ls) @ tail\<rparr>)
               = Inr (rl, c\<lparr>rxq := encode_lines ls @ tail\<rparr>)" for tail
    using assms(1,2) read_line_clean [of "c\<lparr>rxq := encode_lines (rl # ls) @ tail\<rparr>" rl "encode_lines ls @ tail"]
    by (simp add: readable_line_def encode_lines_Cons)
  have line: "process_request_line request_init (c\<lparr>rxq := encode_lines (rl # ls) @ tail\<rparr>)
              = Inr (r, c\<lparr>rxq := encode_lines ls @ tail\<rparr>)" for tail
    by (simp add: process_request_line_def first assms(4))
  have cut: "process_header_lines oob r (c\<lparr>rxq := encode_lines ls @ []\<rparr>)
             = Inr (r\<lparr>req_header := snd (foldl (header_line_step oob) ([], req_header r) ls)\<rparr>,
                    c\<lparr>rxq := []\<rparr>)"
    using eof assms(1,3)
    by (intro process_header_lines_block [where tail = "[]"]) simp_all
  have whole: "process_header_lines oob r (c\<lparr>rxq := encode_lines ls @ CRLF\<rparr>)
             = Inr (r\<lparr>req_header := snd (foldl (header_line_step oob) ([], req_header r) ls)\<rparr>,
                    c\<lparr>rxq := []\<rparr>)"
    using blank assms(1,3)
    by (intro process_header_lines_block [where tail = "CRLF"]) simp_all
  have a: "request_ctor oob (c\<lparr>rxq := encode_lines (rl # ls)\<rparr>)
           = Inr (r\<lparr>req_header := snd (foldl (header_line_step oob) ([], []) ls)\<rparr>, c\<lparr>rxq := []\<rparr>)"
    using line [of "[]"] cut by (simp add: request_ctor_def hdr)
  have b: "request_ctor oob (c\<lparr>rxq := encode_lines (rl # ls) @ CRLF\<rparr>)
           = Inr (r\<lparr>req_header := snd (foldl (header_line_step oob) ([], []) ls)\<rparr>, c\<lparr>rxq := []\<rparr>)"
    using line [of CRLF] whole by (simp add: request_ctor_def hdr)
  show ?thesis
    using eof a b by simp
qed

theorem request_ctor_peer_closed_witness:
  "rx_errno \<lparr>rxq = [], rx_errno = None\<rparr> = None
   \<and> readable_line ''GET /hello HTTP/1.1''
   \<and> readable_line ''Host: x''
   \<and> parse_request_line request_init ''GET /hello HTTP/1.1''
       = Inr (request_init\<lparr>req_method := Some GET, req_path := ''/hello''\<rparr>)
   \<and> read_line \<lparr>rxq = [], rx_errno = None\<rparr> = Inr ([], \<lparr>rxq = [], rx_errno = None\<rparr>)
   \<and> request_ctor zero_byte
        \<lparr>rxq = encode_lines [''GET /hello HTTP/1.1'', ''Host: x''], rx_errno = None\<rparr>
       = Inr (request_init\<lparr>req_method := Some GET, req_path := ''/hello'',
                            req_header := [(''Host'', ''x'')]\<rparr>,
              \<lparr>rxq = [], rx_errno = None\<rparr>)
   \<and> request_ctor zero_byte
        \<lparr>rxq = encode_lines [''GET /hello HTTP/1.1'', ''Host: x''], rx_errno = None\<rparr>
       = request_ctor zero_byte
        \<lparr>rxq = encode_lines [''GET /hello HTTP/1.1'', ''Host: x''] @ CRLF, rx_errno = None\<rparr>"
proof -
  let ?c = "\<lparr>rxq = [], rx_errno = None\<rparr>"
  have h1: "rx_errno ?c = None" by simp
  have h2: "readable_line ''GET /hello HTTP/1.1''"
    by (simp add: readable_line_def CR_def LF_def BUFFER_SIZE_def)
  have r: "readable_line ''Host: x''"
    by (simp add: readable_line_def CR_def LF_def BUFFER_SIZE_def)
  then have h3: "\<forall>l \<in> set [''Host: x'']. readable_line l"
    by simp
  have h4: "parse_request_line request_init ''GET /hello HTTP/1.1''
            = Inr (request_init\<lparr>req_method := Some GET, req_path := ''/hello''\<rparr>)"
    by (simp add: parse_request_line_def set_method_def lowercase_def tolower_def Let_def)
  have v: "snd (foldl (header_line_step zero_byte) ([], []) [''Host: x'']) = [(''Host'', ''x'')]"
    by (simp add: header_line_step_def Let_def)
  note t = request_ctor_peer_closed [OF h1 h2 h3 h4, of zero_byte]
  have a: "read_line \<lparr>rxq = [], rx_errno = None\<rparr> = Inr ([], \<lparr>rxq = [], rx_errno = None\<rparr>)"
    using t [THEN conjunct1] by simp
  have b: "request_ctor zero_byte
        \<lparr>rxq = encode_lines [''GET /hello HTTP/1.1'', ''Host: x''], rx_errno = None\<rparr>
       = Inr (request_init\<lparr>req_method := Some GET, req_path := ''/hello'',
                            req_header := [(''Host'', ''x'')]\<rparr>,
              \<lparr>rxq = [], rx_errno = None\<rparr>)"
    using t [THEN conjunct2, THEN conjunct1] v by simp
  have c: "request_ctor zero_byte
        \<lparr>rxq = encode_lines [''GET /hello HTTP/1.1'', ''Host: x''], rx_errno = None\<rparr>
       = request_ctor zero_byte
        \<lparr>rxq = encode_lines [''GET /hello HTTP/1.1'', ''Host: x''] @ CRLF, rx_errno = None\<rparr>"
    using t [THEN conjunct2, THEN conjunct2] by simp
  show ?thesis
    by (intro conjI h1 h2 r h4 a b c)
qed

end
